theory Spec2Isabelle
  imports Complex_Main
begin

section \<open>Strings\<close>

text \<open>
  Python strings are modelled as \<open>string\<close>: a character stands for a code point below 256.
  On these code points \<open>str.strip()\<close> and \<open>str.split()\<close> take as white space the blank,
  the controls 0x09..0x0D and 0x1C..0x1F, the next-line control 0x85 and the no-break
  space 0xA0, and \<open>str.lower()\<close> moves the capital letters \<open>A..Z\<close>, 0xC0..0xD6 and
  0xD8..0xDE to the small letters 32 places above them and leaves every other code point as
  it is. Text with code points from 256 on is not covered.
\<close>

definition is_space :: "char \<Rightarrow> bool" where
  "is_space c = (c \<in> set [CHR '' '', CHR 0x09, CHR 0x0A, CHR 0x0B, CHR 0x0C, CHR 0x0D,
                          CHR 0x1C, CHR 0x1D, CHR 0x1E, CHR 0x1F, CHR 0x85, CHR 0xA0])"

definition strip :: "string \<Rightarrow> string" where
  "strip s = rev (dropWhile is_space (rev (dropWhile is_space s)))"

fun split_from :: "string \<Rightarrow> string \<Rightarrow> string list" where
  "split_from cur [] = (if cur = [] then [] else [rev cur])"
| "split_from cur (c # cs) =
     (if is_space c then (if cur = [] then [] else [rev cur]) @ split_from [] cs
      else split_from (c # cur) cs)"

definition split :: "string \<Rightarrow> string list" where
  "split s = split_from [] s"

definition is_capital :: "char \<Rightarrow> bool" where
  "is_capital c =
     ((65::nat) \<le> of_char c \<and> of_char c \<le> (90::nat)
      \<or> (192::nat) \<le> of_char c \<and> of_char c \<le> (214::nat)
      \<or> (216::nat) \<le> of_char c \<and> of_char c \<le> (222::nat))"

definition lower_char :: "char \<Rightarrow> char" where
  "lower_char c = (if is_capital c then char_of (of_char c + (32::nat)) else c)"

definition lower :: "string \<Rightarrow> string" where
  "lower s = map lower_char s"

section \<open>Queues\<close>

text \<open>
  \<open>queue.Queue(maxsize)\<close> of the Python standard library: a FIFO whose capacity is
  \<open>maxsize\<close> when that is positive and unlimited when it is zero or negative.
  \<open>put\<close> (blocking, no timeout) appends at the tail unless the queue is full, in which case
  the caller waits for a consumer; with no consumer step in between this is the value \<open>None\<close>.
\<close>

record 'a Queue =
  maxsize :: int
  queue :: "'a list"

definition Queue_init :: "int \<Rightarrow> 'a Queue" where
  "Queue_init m = \<lparr>maxsize = m, queue = []\<rparr>"

definition qsize :: "'a Queue \<Rightarrow> nat" where
  "qsize q = length (queue q)"

definition full :: "'a Queue \<Rightarrow> bool" where
  "full q = (0 < maxsize q \<and> maxsize q \<le> int (qsize q))"

definition put :: "'a Queue \<Rightarrow> 'a \<Rightarrow> 'a Queue option" where
  "put q item = (if full q then None else Some (q\<lparr>queue := queue q @ [item]\<rparr>))"

text \<open>
  \<open>Queue.get(block=True, timeout)\<close> on the content of a queue: it hands out the oldest
  item; on an empty queue it waits forever when no timeout is given and raises
  \<open>queue.Empty\<close> when the timeout expires.
\<close>

datatype 'a received = Got 'a "'a list" | Timeout | Blocked

fun queue_get :: "nat option \<Rightarrow> 'a list \<Rightarrow> 'a received" where
  "queue_get timeout (x # xs) = Got x xs"
| "queue_get None [] = Blocked"
| "queue_get (Some t) [] = Timeout"

text \<open>
  EchoJournal.py, lines 62-63: both queues are created by \<open>queue.Queue()\<close>, whose
  \<open>maxsize\<close> defaults to 0. The audio queue carries chunks and the sentinel \<open>None\<close>.
\<close>

definition audio_queue :: "'c option Queue" where
  "audio_queue = Queue_init 0"

definition text_queue :: "string Queue" where
  "text_queue = Queue_init 0"

text \<open>\<open>audio_callback\<close> (lines 96-100): one unconditional \<open>audio_queue.put(indata.copy())\<close>.\<close>

definition audio_callback :: "'c option Queue \<Rightarrow> 'c \<Rightarrow> 'c option Queue option" where
  "audio_callback q indata = put q (Some indata)"

fun audio_callbacks :: "'c option Queue \<Rightarrow> 'c list \<Rightarrow> 'c option Queue option" where
  "audio_callbacks q [] = Some q"
| "audio_callbacks q (indata # later) =
     (case audio_callback q indata of None \<Rightarrow> None | Some q' \<Rightarrow> audio_callbacks q' later)"

section \<open>The transcription worker\<close>

text \<open>
  The body of the \<open>try\<close> block of \<open>transcription_worker\<close> can raise anywhere between the
  conversion of the chunk and the consumption of the segment generator; the parameter
  \<open>transcribe\<close> stands for all of it: it yields either the exception or the texts of the
  segments. \<open>transcription_of\<close> is \<open>"".join(segment.text for segment in segments).strip()\<close>.
\<close>

datatype exn = Exception string

definition transcription_of :: "string list \<Rightarrow> string" where
  "transcription_of segments = strip (concat segments)"

datatype worker_exit = Waiting | Stopped | Failed exn | Load_failed exn

record 'c worker =
  exit :: worker_exit
  audio_left :: "'c option list"
  text_put :: "string list"
  transcribed :: "'c list"
  model_loaded :: bool

text \<open>
  The \<open>while True\<close> loop of EchoJournal.py (lines 79-93), run on the content of the audio
  queue. \<open>text_put\<close> collects the \<open>text_queue.put\<close> calls and \<open>transcribed\<close> the chunks
  handed to the model, both oldest first. When the content is used up the worker is inside
  \<open>audio_queue.get()\<close>: exit \<open>Waiting\<close>.
\<close>

function worker_loop ::
  "('c \<Rightarrow> exn + string list) \<Rightarrow> 'c option list \<Rightarrow> string list \<Rightarrow> 'c list \<Rightarrow> 'c worker" where
  "worker_loop transcribe q texts calls =
     (case queue_get None q of
        Blocked \<Rightarrow>
          \<lparr>exit = Waiting, audio_left = q, text_put = texts, transcribed = calls,
           model_loaded = True\<rparr>
      | Timeout \<Rightarrow>
          \<lparr>exit = Failed (Exception ''Empty''), audio_left = q, text_put = texts,
           transcribed = calls, model_loaded = True\<rparr>
      | Got audio_chunk rest \<Rightarrow>
          (case audio_chunk of
             None \<Rightarrow>
               \<lparr>exit = Stopped, audio_left = rest, text_put = texts, transcribed = calls,
                model_loaded = True\<rparr>
           | Some chunk \<Rightarrow>
               (case transcribe chunk of
                  Inl e \<Rightarrow>
                    \<lparr>exit = Failed e, audio_left = rest, text_put = texts,
                     transcribed = calls @ [chunk], model_loaded = True\<rparr>
                | Inr segments \<Rightarrow>
                    worker_loop transcribe rest
                      (if transcription_of segments \<noteq> []
                       then texts @ [transcription_of segments] else texts)
                      (calls @ [chunk]))))"
  by pat_completeness auto
termination
  by (relation "measure (\<lambda>(transcribe, q, texts, calls). length q)")
     (auto elim: queue_get.elims)

declare worker_loop.simps [simp del]

text \<open>
  \<open>transcription_worker\<close> (lines 67-93): the model is loaded first; the ready signal is set
  whether or not loading succeeded, and a failed load returns at once.
\<close>

definition transcription_worker ::
  "exn option \<Rightarrow> ('c \<Rightarrow> exn + string list) \<Rightarrow> 'c option list \<Rightarrow> 'c worker" where
  "transcription_worker load_error transcribe q =
     (case load_error of
        Some e \<Rightarrow>
          \<lparr>exit = Load_failed e, audio_left = q, text_put = [], transcribed = [],
           model_loaded = True\<rparr>
      | None \<Rightarrow> worker_loop transcribe q [] [])"

text \<open>
  The worker of Assignment3/TBD/app.py (lines 49-68) receives with \<open>get(timeout=1)\<close>,
  treats \<open>queue.Empty\<close> as "try again", prints the text instead of queueing it and knows no
  sentinel: its queue carries chunks only. On used-up content it keeps polling.
\<close>

datatype app_exit = Polling | App_failed exn

function app_worker_loop ::
  "('c \<Rightarrow> exn + string list) \<Rightarrow> 'c list \<Rightarrow> string list \<Rightarrow> app_exit \<times> 'c list \<times> string list" where
  "app_worker_loop transcribe q printed =
     (case queue_get (Some 1) q of
        Timeout \<Rightarrow> (Polling, q, printed)
      | Blocked \<Rightarrow> (Polling, q, printed)
      | Got chunk rest \<Rightarrow>
          (case transcribe chunk of
             Inl e \<Rightarrow> (App_failed e, rest, printed)
           | Inr segments \<Rightarrow>
               app_worker_loop transcribe rest
                 (if transcription_of segments \<noteq> []
                  then printed @ [transcription_of segments] else printed)))"
  by pat_completeness auto
termination
  by (relation "measure (\<lambda>(transcribe, q, printed). length q)")
     (auto elim: queue_get.elims)

declare app_worker_loop.simps [simp del]

section \<open>The emotion colours\<close>

type_synonym color = "nat \<times> nat \<times> nat"

type_synonym word_token = "string \<times> color"

definition EMOTION_COLORS :: "string \<rightharpoonup> color" where
  "EMOTION_COLORS = map_of
     [(''fear'', (100, 149, 237)),
      (''anger'', (220, 20, 60)),
      (''sadness'', (119, 136, 153)),
      (''disgust'', (107, 142, 35)),
      (''joy'', (255, 165, 0)),
      (''surprise'', (255, 215, 0)),
      (''trust'', (255, 182, 193)),
      (''anticipation'', (144, 238, 144)),
      (''positive'', (60, 179, 113)),
      (''negative'', (169, 169, 169))]"

definition DEFAULT_TEXT_COLOR :: color where
  "DEFAULT_TEXT_COLOR = (0, 0, 0)"

text \<open>
  The body of the loop over the words in \<open>main\<close> (lines 304-314). \<open>affect_dict\<close> is the
  dictionary of the lexicon object built for the fragment; a missing key reads as the empty
  list (\<open>affect_dict.get(word.lower(), [])\<close>).
\<close>

definition word_color :: "(string \<rightharpoonup> string list) \<Rightarrow> string \<Rightarrow> color" where
  "word_color affect_dict word =
     (let affect_list = (case affect_dict (lower word) of None \<Rightarrow> [] | Some tags \<Rightarrow> tags)
      in case affect_list of
           [] \<Rightarrow> DEFAULT_TEXT_COLOR
         | primary_emotion # _ \<Rightarrow>
             (case EMOTION_COLORS primary_emotion of
                Some c \<Rightarrow> c
              | None \<Rightarrow> DEFAULT_TEXT_COLOR))"

definition new_chunk :: "(string \<rightharpoonup> string list) \<Rightarrow> string \<Rightarrow> word_token list" where
  "new_chunk affect_dict new_text = map (\<lambda>word. (word, word_color affect_dict word)) (split new_text)"

section \<open>The two-column layout\<close>

text \<open>
  Of the surface the layout reads the width and the height; of the font it reads the width of
  a blank (\<open>font.size(' ')[0]\<close>), the size of each rendered word
  (\<open>font.render(word, True, color).get_size()\<close>) and the line height (\<open>font.get_height()\<close>).
  Every \<open>surface.blit\<close> is recorded in \<open>blits\<close>, oldest first.
\<close>

record surface =
  surface_width :: int
  surface_height :: int

record font =
  font_size :: "string \<Rightarrow> int \<times> int"
  render_size :: "string \<Rightarrow> color \<Rightarrow> int \<times> int"
  font_height :: int

record layout =
  col_y :: int
  current_col_x :: int
  current_line_x :: int
  screen_full :: bool
  blits :: "(string \<times> color \<times> int \<times> int) list"

definition margin :: int where
  "margin = 40"

definition person_area_width :: int where
  "person_area_width = 250"

definition col_width :: "surface \<Rightarrow> int" where
  "col_width surface = (surface_width surface - person_area_width - 2 * margin) div 2"

definition left_col_x :: int where
  "left_col_x = margin"

definition right_col_x :: "surface \<Rightarrow> int" where
  "right_col_x surface = surface_width surface - margin - col_width surface"

definition space_width :: "font \<Rightarrow> int" where
  "space_width f = fst (font_size f '' '')"

definition word_width :: "font \<Rightarrow> word_token \<Rightarrow> int" where
  "word_width f tok = fst (render_size f (fst tok) (snd tok))"

definition word_height :: "font \<Rightarrow> word_token \<Rightarrow> int" where
  "word_height f tok = snd (render_size f (fst tok) (snd tok))"

definition layout_start :: layout where
  "layout_start =
     \<lparr>col_y = margin, current_col_x = left_col_x, current_line_x = left_col_x,
      screen_full = False, blits = []\<rparr>"

text \<open>Lines 152-153: draw the word at the cursor and move the cursor past it.\<close>

definition blit_word :: "font \<Rightarrow> word_token \<Rightarrow> layout \<Rightarrow> layout" where
  "blit_word f tok st =
     st\<lparr>blits := blits st @ [(fst tok, snd tok, current_line_x st, col_y st)],
        current_line_x := current_line_x st + word_width f tok + space_width f\<rparr>"

text \<open>
  One iteration of the inner loop (lines 134-153). The \<open>break\<close> of line 150 is the result
  with \<open>screen_full\<close> set and nothing drawn.
\<close>

definition place_word :: "surface \<Rightarrow> font \<Rightarrow> word_token \<Rightarrow> layout \<Rightarrow> layout" where
  "place_word surface f tok st =
     (if current_line_x st + word_width f tok > current_col_x st + col_width surface then
        (let st1 = st\<lparr>col_y := col_y st + word_height f tok,
                      current_line_x := current_col_x st\<rparr>
         in if col_y st1 + word_height f tok > surface_height surface - margin then
              (if current_col_x st1 = left_col_x then
                 blit_word f tok
                   (st1\<lparr>current_col_x := right_col_x surface, col_y := margin,
                        current_line_x := right_col_x surface\<rparr>)
               else st1\<lparr>screen_full := True\<rparr>)
            else blit_word f tok st1)
      else blit_word f tok st)"

fun draw_words :: "surface \<Rightarrow> font \<Rightarrow> word_token list \<Rightarrow> layout \<Rightarrow> layout" where
  "draw_words surface f [] st = st"
| "draw_words surface f (tok # rest) st =
     (let st1 = place_word surface f tok st
      in if screen_full st1 then st1 else draw_words surface f rest st1)"

text \<open>Lines 158-167: after a chunk, move to the next line.\<close>

definition end_chunk :: "surface \<Rightarrow> font \<Rightarrow> layout \<Rightarrow> layout" where
  "end_chunk surface f st =
     (let st1 = st\<lparr>col_y := col_y st + font_height f, current_line_x := current_col_x st\<rparr>
      in if col_y st1 + font_height f > surface_height surface - margin then
           (if current_col_x st1 = left_col_x then
              st1\<lparr>current_col_x := right_col_x surface, col_y := margin\<rparr>
            else st1\<lparr>screen_full := True\<rparr>)
         else st1)"

fun draw_chunks :: "surface \<Rightarrow> font \<Rightarrow> word_token list list \<Rightarrow> layout \<Rightarrow> layout" where
  "draw_chunks surface f [] st = st"
| "draw_chunks surface f (chunk # rest) st =
     (let st1 = draw_words surface f chunk st
      in if screen_full st1 then st1
         else (let st2 = end_chunk surface f st1
               in if screen_full st2 then st2 else draw_chunks surface f rest st2))"

definition layout_of :: "surface \<Rightarrow> word_token list list \<Rightarrow> font \<Rightarrow> layout" where
  "layout_of surface word_color_chunks f = draw_chunks surface f word_color_chunks layout_start"

text \<open>\<open>draw_text_in_columns\<close> returns the flag; the words it drew are \<open>drawn\<close>.\<close>

definition draw_text_in_columns :: "surface \<Rightarrow> word_token list list \<Rightarrow> font \<Rightarrow> bool" where
  "draw_text_in_columns surface word_color_chunks f =
     screen_full (layout_of surface word_color_chunks f)"

definition drawn ::
  "surface \<Rightarrow> word_token list list \<Rightarrow> font \<Rightarrow> (string \<times> color \<times> int \<times> int) list" where
  "drawn surface word_color_chunks f = blits (layout_of surface word_color_chunks f)"

section \<open>The main loop\<close>

definition WINDOW_WIDTH :: int where
  "WINDOW_WIDTH = 1200"

definition WINDOW_HEIGHT :: int where
  "WINDOW_HEIGHT = 800"

definition TARGET_CHARS_FOR_RELEASE :: int where
  "TARGET_CHARS_FOR_RELEASE = 500"

definition screen :: surface where
  "screen = \<lparr>surface_width = WINDOW_WIDTH, surface_height = WINDOW_HEIGHT\<rparr>"

text \<open>\<open>pygame.Rect(left, top, width, height)\<close> and its \<open>collidepoint\<close>.\<close>

record rect =
  rect_left :: int
  rect_top :: int
  rect_width :: int
  rect_height :: int

definition collidepoint :: "rect \<Rightarrow> int \<times> int \<Rightarrow> bool" where
  "collidepoint r pos =
     (rect_left r \<le> fst pos \<and> fst pos < rect_left r + rect_width r \<and>
      rect_top r \<le> snd pos \<and> snd pos < rect_top r + rect_height r)"

definition stop_button_rect :: rect where
  "stop_button_rect =
     \<lparr>rect_left = WINDOW_WIDTH - 270, rect_top = WINDOW_HEIGHT - 60,
      rect_width = 250, rect_height = 40\<rparr>"

definition save_button_rect :: rect where
  "save_button_rect =
     \<lparr>rect_left = WINDOW_WIDTH - 270, rect_top = WINDOW_HEIGHT - 60,
      rect_width = 250, rect_height = 40\<rparr>"

definition resume_button_rect :: rect where
  "resume_button_rect =
     \<lparr>rect_left = WINDOW_WIDTH - 460, rect_top = WINDOW_HEIGHT - 60,
      rect_width = 170, rect_height = 40\<rparr>"

datatype app_state = ONBOARDING | LOADING | RUNNING | FINISHED

datatype event = QUIT | KEYDOWN | MOUSEBUTTONDOWN "int \<times> int" | OTHER

text \<open>
  The variables of \<open>main\<close>. \<open>stream_on\<close> is the state of the input stream (started or
  stopped), \<open>screenshots\<close> counts the images saved, \<open>lightness_level\<close> is unbound until the
  first frame that draws the person, and \<open>resume_drawn\<close> tells whether the last frame drew
  the Resume button.
\<close>

record main_state =
  app_state :: app_state
  running :: bool
  stream_active :: bool
  stream_on :: bool
  word_color_chunks :: "word_token list list"
  total_chars :: int
  lightness_level :: "real option"
  screenshots :: nat
  resume_drawn :: bool

definition main_start :: main_state where
  "main_start =
     \<lparr>app_state = ONBOARDING, running = True, stream_active = False, stream_on = False,
      word_color_chunks = [], total_chars = 0, lightness_level = None, screenshots = 0,
      resume_drawn = False\<rparr>"

text \<open>The body of the event loop (lines 245-266) for one event.\<close>

fun handle_event :: "main_state \<Rightarrow> event \<Rightarrow> main_state" where
  "handle_event s QUIT = s\<lparr>running := False\<rparr>"
| "handle_event s KEYDOWN =
     (if app_state s = ONBOARDING then s\<lparr>app_state := LOADING\<rparr> else s)"
| "handle_event s (MOUSEBUTTONDOWN pos) =
     (if app_state s = RUNNING \<and> collidepoint stop_button_rect pos then
        s\<lparr>app_state := FINISHED,
          stream_on := (if stream_active s then False else stream_on s)\<rparr>
      else if app_state s = FINISHED then
        (if collidepoint save_button_rect pos then s\<lparr>screenshots := screenshots s + 1\<rparr>
         else if collidepoint resume_button_rect pos then
           s\<lparr>app_state := RUNNING,
             stream_on := (if stream_active s then True else stream_on s)\<rparr>
         else s)
      else s)"
| "handle_event s OTHER = s"

text \<open>
  What one pass of the loop reads from outside: the pending events, whether the model-ready
  signal is set, the exception (if any) that opening and starting the input stream would
  raise, and what \<open>text_queue.get_nowait()\<close> would return (\<open>None\<close> for \<open>queue.Empty\<close>).
  \<open>nrclex\<close> maps a fragment to the dictionary of its lexicon object.
\<close>

record frame_input =
  events :: "event list"
  model_is_set :: bool
  stream_error :: "exn option"
  get_nowait :: "string option"

text \<open>Lines 274-292, the \<open>LOADING\<close> branch.\<close>

definition loading :: "frame_input \<Rightarrow> main_state \<Rightarrow> main_state" where
  "loading inp s =
     (if model_is_set inp then
        (case stream_error inp of
           None \<Rightarrow> s\<lparr>stream_on := True, stream_active := True, app_state := RUNNING\<rparr>
         | Some e \<Rightarrow> s\<lparr>running := False\<rparr>)
      else s)"

text \<open>Lines 297-317: a fragment was received.\<close>

definition receive_text ::
  "(string \<Rightarrow> string \<rightharpoonup> string list) \<Rightarrow> string \<Rightarrow> main_state \<Rightarrow> main_state" where
  "receive_text nrclex new_text s =
     (let chunk = new_chunk (nrclex new_text) new_text
      in s\<lparr>total_chars := total_chars s + int (length new_text),
           word_color_chunks :=
             (if chunk \<noteq> [] then word_color_chunks s @ [chunk] else word_color_chunks s)\<rparr>)"

text \<open>Line 324. The quotient of the two integers is taken in the reals.\<close>

definition lightness_of :: "int \<Rightarrow> real" where
  "lightness_of chars = min 1 (real_of_int chars / real_of_int TARGET_CHARS_FOR_RELEASE)"

text \<open>Lines 294-348, the part of a pass that runs in \<open>RUNNING\<close> and \<open>FINISHED\<close>.\<close>

definition update_and_draw ::
  "font \<Rightarrow> (string \<Rightarrow> string \<rightharpoonup> string list) \<Rightarrow> frame_input \<Rightarrow> main_state \<Rightarrow> main_state" where
  "update_and_draw pixel_font nrclex inp s =
     (let s1 = (if app_state s = RUNNING then
                  (case get_nowait inp of
                     None \<Rightarrow> s
                   | Some new_text \<Rightarrow> receive_text nrclex new_text s)
                else s);
          s2 = s1\<lparr>lightness_level := Some (lightness_of (total_chars s1))\<rparr>;
          screen_is_full = draw_text_in_columns screen (word_color_chunks s2) pixel_font;
          s3 = (if screen_is_full \<and> app_state s2 = RUNNING then
                  s2\<lparr>app_state := FINISHED,
                     stream_on := (if stream_active s2 then False else stream_on s2)\<rparr>
                else s2)
      in s3\<lparr>resume_drawn := (app_state s3 = FINISHED \<and> \<not> screen_is_full)\<rparr>)"

text \<open>One pass of the \<open>while running\<close> loop (lines 244-351).\<close>

definition frame ::
  "font \<Rightarrow> (string \<Rightarrow> string \<rightharpoonup> string list) \<Rightarrow> frame_input \<Rightarrow> main_state \<Rightarrow> main_state" where
  "frame pixel_font nrclex inp s =
     (let s1 = foldl handle_event s (events inp);
          s2 = (if app_state s1 = ONBOARDING then s1
                else if app_state s1 = LOADING then loading inp s1
                else s1)
      in if app_state s2 = RUNNING \<or> app_state s2 = FINISHED then
           update_and_draw pixel_font nrclex inp s2
         else s2\<lparr>resume_drawn := False\<rparr>)"

fun main_loop ::
  "font \<Rightarrow> (string \<Rightarrow> string \<rightharpoonup> string list) \<Rightarrow> frame_input list \<Rightarrow> main_state \<Rightarrow> main_state" where
  "main_loop pixel_font nrclex [] s = s"
| "main_loop pixel_font nrclex (inp # inps) s =
     (if running s then main_loop pixel_font nrclex inps (frame pixel_font nrclex inp s)
      else s)"

text \<open>The clamp of the specification, for comparison with \<open>lightness_of\<close>.\<close>

definition clamp :: "real \<Rightarrow> real \<Rightarrow> real \<Rightarrow> real" where
  "clamp x lo hi = max lo (min hi x)"

section \<open>Sample inputs\<close>

text \<open>
  A model that fails on chunk 0, hears nothing in chunk 1 and hears the same sentence in
  every other chunk.
\<close>

definition demo_transcribe :: "nat \<Rightarrow> exn + string list" where
  "demo_transcribe c =
     (if c = 0 then Inl (Exception ''decode'')
      else if c = 1 then Inr ['' '', '' '']
      else Inr ['' so'', '' it goes ''])"

definition demo_segments :: "nat \<Rightarrow> string list" where
  "demo_segments c = (if c = 1 then ['' '', '' ''] else ['' so'', '' it goes ''])"

text \<open>
  A monospaced font, 18 pixels to the character and 30 pixels high, and a second font that
  differs from it on one word only.
\<close>

definition mono_font :: font where
  "mono_font = \<lparr>font_size = (\<lambda>s. (18 * int (length s), 30)),
                render_size = (\<lambda>s c. (18 * int (length s), 30)), font_height = 30\<rparr>"

definition other_font :: font where
  "other_font = \<lparr>font_size = (\<lambda>s. (18 * int (length s), 30)),
      render_size = (\<lambda>s c. if s = ''zebra'' then (500, 30) else (18 * int (length s), 30)),
      font_height = 30\<rparr>"

text \<open>A lexicon object that knows no word, and tokens in the default colour.\<close>

definition no_lexicon :: "string \<Rightarrow> string \<rightharpoonup> string list" where
  "no_lexicon new_text = Map.empty"

definition plain :: "string \<Rightarrow> word_token" where
  "plain word = (word, DEFAULT_TEXT_COLOR)"

text \<open>
  Words of 25 and of 26 letters: 450 and 468 pixels in the monospaced font, both wider than
  a column of the window (435 pixels).
\<close>

definition long_word :: string where
  "long_word = replicate 25 CHR ''x''"

definition longer_word :: string where
  "longer_word = replicate 26 CHR ''y''"

text \<open>Inputs of single passes of the main loop.\<close>

definition start_input :: frame_input where
  "start_input = \<lparr>events = [KEYDOWN], model_is_set = True, stream_error = None, get_nowait = None\<rparr>"

definition text_input :: "string \<Rightarrow> frame_input" where
  "text_input new_text = \<lparr>events = [], model_is_set = True, stream_error = None, get_nowait = Some new_text\<rparr>"

definition click_input :: "int \<times> int \<Rightarrow> string option \<Rightarrow> frame_input" where
  "click_input pos polled = \<lparr>events = [MOUSEBUTTONDOWN pos], model_is_set = True, stream_error = None, get_nowait = polled\<rparr>"

definition quit_input :: frame_input where
  "quit_input = \<lparr>events = [OTHER, QUIT], model_is_set = False, stream_error = None, get_nowait = None\<rparr>"

text \<open>
  The state of \<open>main\<close> after 47 fragments of one short word each: the last line of the
  second column is still free.
\<close>

definition crowded :: main_state where
  "crowded =
     main_start\<lparr>app_state := RUNNING, stream_active := True, stream_on := True,
       word_color_chunks := replicate 47 [plain ''a''], total_chars := 47,
       lightness_level := Some (lightness_of 47)\<rparr>"

section \<open>Auxiliary notions\<close>




text \<open>The token of a drawn word, without its position.\<close>

definition token_of :: "string \<times> color \<times> int \<times> int \<Rightarrow> word_token" where
  "token_of b = (fst b, fst (snd b))"

text \<open>
  The invariant of the counters: the count is not negative, and the lightness, once
  computed, is the one of the current count.
\<close>

definition chars_inv :: "main_state \<Rightarrow> bool" where
  "chars_inv s =
     (0 \<le> total_chars s \<and>
      (case lightness_level s of
         None \<Rightarrow> total_chars s = 0
       | Some l \<Rightarrow> l = lightness_of (total_chars s)))"

section \<open>The worker: one pass of the loop\<close>

lemma worker_loop_empty:
  "worker_loop tr [] texts calls =
     \<lparr>exit = Waiting, audio_left = [], text_put = texts, transcribed = calls,
      model_loaded = True\<rparr>"
  by (simp add: worker_loop.simps)

lemma worker_loop_sentinel:
  "worker_loop tr (None # rest) texts calls =
     \<lparr>exit = Stopped, audio_left = rest, text_put = texts, transcribed = calls,
      model_loaded = True\<rparr>"
  by (simp add: worker_loop.simps)

lemma worker_loop_error:
  "tr chunk = Inl e \<Longrightarrow>
   worker_loop tr (Some chunk # rest) texts calls =
     \<lparr>exit = Failed e, audio_left = rest, text_put = texts, transcribed = calls @ [chunk],
      model_loaded = True\<rparr>"
  by (simp add: worker_loop.simps)

lemma worker_loop_text:
  "tr chunk = Inr segments \<Longrightarrow>
   worker_loop tr (Some chunk # rest) texts calls =
     worker_loop tr rest
       (texts @ filter (\<lambda>t. t \<noteq> []) [transcription_of segments]) (calls @ [chunk])"
  by (subst worker_loop.simps) simp

text \<open>A run of chunks that the model transcribes without error.\<close>

lemma worker_loop_run:
  "\<forall>c\<in>set good. tr c = Inr (segs c) \<Longrightarrow>
   worker_loop tr (map Some good @ q) texts calls =
     worker_loop tr q
       (texts @ filter (\<lambda>t. t \<noteq> []) (map (\<lambda>c. transcription_of (segs c)) good))
       (calls @ good)"
proof (induction good arbitrary: texts calls)
  case Nil
  then show ?case by simp
next
  case (Cons c good)
  have "tr c = Inr (segs c)" using Cons.prems by simp
  then have "worker_loop tr (map Some (c # good) @ q) texts calls =
      worker_loop tr (map Some good @ q)
        (texts @ filter (\<lambda>t. t \<noteq> []) [transcription_of (segs c)]) (calls @ [c])"
    by (simp add: worker_loop_text)
  also have "\<dots> = worker_loop tr q
       ((texts @ filter (\<lambda>t. t \<noteq> []) [transcription_of (segs c)]) @
          filter (\<lambda>t. t \<noteq> []) (map (\<lambda>c. transcription_of (segs c)) good))
       ((calls @ [c]) @ good)"
    using Cons.prems by (intro Cons.IH) simp
  finally show ?case by simp
qed

section \<open>The worker: an error of the model\<close>

text \<open>
  Claim C8. When the transcription of a chunk raises, the worker is over: its exit is the
  failure; the chunks queued behind the failing one (and a sentinel among them) stay in the
  audio queue, so nothing is received after the error; the failing chunk is the last one
  handed to the model and is handed over once, so nothing is transcribed or tried again
  after the error; and the texts queued are those of the chunks before it. The worker is
  one evaluation of \<open>transcription_worker\<close>, as \<open>main\<close> starts its thread once, before the
  loop.
\<close>

theorem worker_error_is_final:
  assumes "\<forall>c\<in>set before. tr c = Inr (segs c)" and "tr bad = Inl e"
  shows "transcription_worker None tr (map Some before @ Some bad # rest) =
     \<lparr>exit = Failed e, audio_left = rest,
      text_put = filter (\<lambda>t. t \<noteq> []) (map (\<lambda>c. transcription_of (segs c)) before),
      transcribed = before @ [bad], model_loaded = True\<rparr>"
proof -
  have "worker_loop tr (map Some before @ Some bad # rest) [] [] =
      worker_loop tr (Some bad # rest)
        ([] @ filter (\<lambda>t. t \<noteq> []) (map (\<lambda>c. transcription_of (segs c)) before))
        ([] @ before)"
    using assms(1) by (rule worker_loop_run)
  then show ?thesis
    using assms(2) by (simp add: transcription_worker_def worker_loop_error)
qed

theorem worker_error_is_final_witness:
  "demo_transcribe 2 = Inr (demo_segments 2) \<and>
   demo_transcribe 1 = Inr (demo_segments 1) \<and>
   demo_transcribe 3 = Inr (demo_segments 3) \<and>
   demo_transcribe 0 = Inl (Exception ''decode'') \<and>
   transcription_worker None demo_transcribe [Some 2, Some 1, Some 3, Some 0, Some 2, None] =
     \<lparr>exit = Failed (Exception ''decode''), audio_left = [Some 2, None],
      text_put = [''so it goes'', ''so it goes''], transcribed = [2, 1, 3, 0],
      model_loaded = True\<rparr>"
proof -
  have a: "\<forall>c\<in>set [2, 1, 3]. demo_transcribe c = Inr (demo_segments c)"
    by (simp add: demo_transcribe_def demo_segments_def)
  have b: "demo_transcribe 0 = Inl (Exception ''decode'')"
    by (simp add: demo_transcribe_def)
  show ?thesis
    using a b worker_error_is_final [OF a b, of "[Some 2, None]"]
    by (simp add: demo_segments_def transcription_of_def strip_def is_space_def)
qed

section \<open>The worker: receiving and queueing\<close>

text \<open>
  Claim C3, as amended. The worker of EchoJournal.py receives one item per pass by a blocking
  receive that has no timeout. On the sentinel it stops and leaves what is behind the
  sentinel in the queue. Every chunk before the sentinel is handed to the model in the order
  of receipt, and the stripped text of a chunk is put on the text queue exactly when it is
  not empty, in that same order. When the queue holds no sentinel the worker ends up waiting
  in the receive.
\<close>

theorem worker_queues_texts_in_receipt_order:
  assumes "\<forall>c\<in>set chunks. tr c = Inr (segs c)"
  shows "transcription_worker None tr (map Some chunks @ None # rest) =
           \<lparr>exit = Stopped, audio_left = rest,
            text_put = filter (\<lambda>t. t \<noteq> []) (map (\<lambda>c. transcription_of (segs c)) chunks),
            transcribed = chunks, model_loaded = True\<rparr>
       \<and> transcription_worker None tr (map Some chunks) =
           \<lparr>exit = Waiting, audio_left = [],
            text_put = filter (\<lambda>t. t \<noteq> []) (map (\<lambda>c. transcription_of (segs c)) chunks),
            transcribed = chunks, model_loaded = True\<rparr>"
proof -
  have run: "worker_loop tr (map Some chunks @ q) [] [] =
      worker_loop tr q
        ([] @ filter (\<lambda>t. t \<noteq> []) (map (\<lambda>c. transcription_of (segs c)) chunks))
        ([] @ chunks)" for q
    using assms by (rule worker_loop_run)
  have "worker_loop tr (map Some chunks) [] [] =
      worker_loop tr []
        ([] @ filter (\<lambda>t. t \<noteq> []) (map (\<lambda>c. transcription_of (segs c)) chunks))
        ([] @ chunks)"
    using run [of "[]"] by simp
  then show ?thesis
    using run [of "None # rest"]
    by (simp add: transcription_worker_def worker_loop_sentinel worker_loop_empty)
qed

theorem worker_queues_texts_in_receipt_order_witness:
  "transcription_worker None demo_transcribe [Some 2, Some 1, Some 3, None, Some 4] =
     \<lparr>exit = Stopped, audio_left = [Some 4],
      text_put = [''so it goes'', ''so it goes''], transcribed = [2, 1, 3],
      model_loaded = True\<rparr>
   \<and> transcription_worker None demo_transcribe [Some 2, Some 1, Some 3] =
     \<lparr>exit = Waiting, audio_left = [],
      text_put = [''so it goes'', ''so it goes''], transcribed = [2, 1, 3],
      model_loaded = True\<rparr>"
proof -
  have a: "\<forall>c\<in>set [2, 1, 3]. demo_transcribe c = Inr (demo_segments c)"
    by (simp add: demo_transcribe_def demo_segments_def)
  show ?thesis
    using worker_queues_texts_in_receipt_order [OF a, of "[Some 4]"]
    by (simp add: demo_segments_def transcription_of_def strip_def is_space_def)
qed

text \<open>
  Claim C3 as stated speaks of a receive with a timeout. On the empty queue the receive of
  the worker waits, where a receive with a timeout raises \<open>queue.Empty\<close>, and the worker
  is left waiting, not failed. The receive with a timeout is that of the worker of app.py,
  which has no sentinel and no text queue.
\<close>

theorem worker_receive_has_timeout_counterexample:
  "exit (transcription_worker None demo_transcribe []) = Waiting
   \<and> queue_get None ([] :: nat option list) = Blocked
   \<and> queue_get (Some 1) ([] :: nat option list) = Timeout
   \<and> app_worker_loop demo_transcribe [] [] = (Polling, [], [])"
  by (simp add: transcription_worker_def worker_loop_empty app_worker_loop.simps)

section \<open>The queues have no capacity\<close>

lemma audio_callbacks_append:
  "maxsize q \<le> 0 \<Longrightarrow>
   audio_callbacks q chunks = Some (q\<lparr>queue := queue q @ map Some chunks\<rparr>)"
proof (induction chunks arbitrary: q)
  case Nil
  then show ?case by simp
next
  case (Cons c chunks)
  have "audio_callback q c = Some (q\<lparr>queue := queue q @ [Some c]\<rparr>)"
    using Cons.prems by (simp add: audio_callback_def put_def full_def)
  moreover have "audio_callbacks (q\<lparr>queue := queue q @ [Some c]\<rparr>) chunks =
      Some (q\<lparr>queue := (queue q @ [Some c]) @ map Some chunks\<rparr>)"
    using Cons.prems Cons.IH [of "q\<lparr>queue := queue q @ [Some c]\<rparr>"] by simp
  ultimately show ?case by simp
qed

text \<open>
  Claim C2, as amended. Both queues are first-in first-out and have no capacity: they are
  never full, whatever they hold; every callback appends its chunk at the tail of the audio
  queue at once, so that a run of callbacks with no consumer in between grows the queue by
  one item per callback; a put on the text queue appends at its tail; and a receive hands
  out the oldest item.
\<close>

theorem queues_have_no_capacity:
  "audio_callbacks (audio_queue\<lparr>queue := held\<rparr>) chunks =
     Some (audio_queue\<lparr>queue := held @ map Some chunks\<rparr>)
   \<and> put (text_queue\<lparr>queue := texts\<rparr>) t = Some (text_queue\<lparr>queue := texts @ [t]\<rparr>)
   \<and> \<not> full (audio_queue\<lparr>queue := held\<rparr>) \<and> \<not> full (text_queue\<lparr>queue := texts\<rparr>)
   \<and> queue_get timeout (queue (audio_queue\<lparr>queue := x # held\<rparr>)) = Got x held"
  using audio_callbacks_append [of "audio_queue\<lparr>queue := held\<rparr>" chunks]
  by (simp add: audio_queue_def text_queue_def Queue_init_def put_def full_def)

text \<open>
  Claim C2 as stated asks for a capacity that the size of the audio queue never exceeds.
  There is none: one callback more than the capacity, on the empty queue, exceeds it.
\<close>

theorem queues_bounded_counterexample:
  "\<not> (\<exists>capacity. \<forall>chunks :: nat list.
        case audio_callbacks audio_queue chunks of
          None \<Rightarrow> True
        | Some q \<Rightarrow> qsize q \<le> capacity)"
proof
  assume "\<exists>capacity. \<forall>chunks :: nat list.
        case audio_callbacks audio_queue chunks of
          None \<Rightarrow> True
        | Some q \<Rightarrow> qsize q \<le> capacity"
  then obtain capacity where bound: "\<And>chunks :: nat list.
        case audio_callbacks audio_queue chunks of
          None \<Rightarrow> True
        | Some q \<Rightarrow> qsize q \<le> capacity"
    by blast
  have "audio_callbacks audio_queue (replicate (Suc capacity) (0::nat)) =
      Some (audio_queue\<lparr>queue := queue audio_queue @ map Some (replicate (Suc capacity) 0)\<rparr>)"
    by (rule audio_callbacks_append) (simp add: audio_queue_def Queue_init_def)
  with bound [of "replicate (Suc capacity) 0"] show False
    by (simp add: qsize_def audio_queue_def Queue_init_def)
qed

section \<open>The colour of a word\<close>










section \<open>The main loop: quitting\<close>

lemma handle_event_keeps_stopped: "\<not> running s \<Longrightarrow> \<not> running (handle_event s ev)"
  by (cases ev) simp_all

lemma handle_events_keep_stopped: "\<not> running s \<Longrightarrow> \<not> running (foldl handle_event s evs)"
  by (induction evs arbitrary: s) (simp_all add: handle_event_keeps_stopped)

lemma quit_stops: "QUIT \<in> set evs \<Longrightarrow> \<not> running (foldl handle_event s evs)"
proof (induction evs arbitrary: s)
  case Nil
  then show ?case by simp
next
  case (Cons ev evs)
  show ?case
  proof (cases "ev = QUIT")
    case True
    then show ?thesis by (simp add: handle_events_keep_stopped)
  next
    case False
    then show ?thesis using Cons by simp
  qed
qed

lemma loading_keeps_stopped: "\<not> running s \<Longrightarrow> \<not> running (loading inp s)"
  by (simp add: loading_def split: option.splits)

lemma update_and_draw_running [simp]:
  "running (update_and_draw f n inp s) = running s"
  by (simp add: update_and_draw_def Let_def receive_text_def split: option.splits)

lemma frame_keeps_stopped:
  "\<not> running (foldl handle_event s (events inp)) \<Longrightarrow> \<not> running (frame f n inp s)"
  by (simp add: frame_def Let_def loading_keeps_stopped)

lemma main_loop_stopped: "\<not> running s \<Longrightarrow> main_loop f n inps s = s"
  by (cases inps) simp_all

lemma main_loop_append:
  "main_loop f n (inps @ later) s = main_loop f n later (main_loop f n inps s)"
  by (induction inps arbitrary: s) (simp_all add: main_loop_stopped)

section \<open>The main loop: the counters\<close>

lemma handle_event_chars [simp]:
  "total_chars (handle_event s ev) = total_chars s"
  "lightness_level (handle_event s ev) = lightness_level s"
  "word_color_chunks (handle_event s ev) = word_color_chunks s"
  by (cases ev; simp)+

lemma handle_events_chars [simp]:
  "total_chars (foldl handle_event s evs) = total_chars s"
  "lightness_level (foldl handle_event s evs) = lightness_level s"
  "word_color_chunks (foldl handle_event s evs) = word_color_chunks s"
  by (induction evs arbitrary: s; simp)+

lemma loading_chars [simp]:
  "total_chars (loading inp s) = total_chars s"
  "lightness_level (loading inp s) = lightness_level s"
  "word_color_chunks (loading inp s) = word_color_chunks s"
  by (simp_all add: loading_def split: option.splits)

lemma update_and_draw_chars:
  "total_chars (update_and_draw f n inp s) =
     (if app_state s = RUNNING then
        (case get_nowait inp of None \<Rightarrow> total_chars s
         | Some new_text \<Rightarrow> total_chars s + int (length new_text))
      else total_chars s)"
  by (simp add: update_and_draw_def Let_def receive_text_def split: option.splits)

lemma update_and_draw_lightness:
  "lightness_level (update_and_draw f n inp s) =
     Some (lightness_of (total_chars (update_and_draw f n inp s)))"
  by (simp add: update_and_draw_def Let_def receive_text_def split: option.splits)

lemma frame_chars_mono: "total_chars s \<le> total_chars (frame f n inp s)"
  by (simp add: frame_def Let_def update_and_draw_chars split: option.splits)

lemma frame_inv: "chars_inv s \<Longrightarrow> chars_inv (frame f n inp s)"
  unfolding chars_inv_def
  by (auto simp add: frame_def Let_def update_and_draw_chars update_and_draw_lightness split: option.splits)

lemma main_loop_inv: "chars_inv s \<Longrightarrow> chars_inv (main_loop f n inps s)"
  by (induction inps arbitrary: s) (simp_all add: frame_inv)

lemma main_loop_chars_mono: "total_chars s \<le> total_chars (main_loop f n inps s)"
proof (induction inps arbitrary: s)
  case Nil
  then show ?case by simp
next
  case (Cons inp inps)
  have "total_chars s \<le> total_chars (frame f n inp s)" by (rule frame_chars_mono)
  also have "\<dots> \<le> total_chars (main_loop f n inps (frame f n inp s))" by (rule Cons.IH)
  finally show ?case by simp
qed

text \<open>
  Claim C6. Running the loop on more passes never lowers \<open>total_chars\<close>. From the start
  of \<open>main\<close>, after any passes, the count is not negative and the lightness, once a pass
  has computed it, equals the clamp of count by target to the interval from 0 to 1 and
  lies in that interval; before that the count is still 0. After every pass that ends
  in \<open>RUNNING\<close> or \<open>FINISHED\<close> the lightness is the one of the count after that pass.
  The target is 500, and 250 characters give the lightness one half. The quotient is taken
  in the reals; the rounding of the floating-point division is not modelled.
\<close>

theorem total_chars_grow_lightness_clamped:
  "total_chars (main_loop f n inps s) \<le> total_chars (main_loop f n (inps @ later) s)
   \<and> 0 \<le> total_chars (main_loop f n inps main_start)
   \<and> (case lightness_level (main_loop f n inps main_start) of
         None \<Rightarrow> total_chars (main_loop f n inps main_start) = 0
       | Some l \<Rightarrow>
           l = clamp (real_of_int (total_chars (main_loop f n inps main_start)) /
                      real_of_int TARGET_CHARS_FOR_RELEASE) 0 1
           \<and> 0 \<le> l \<and> l \<le> 1)
   \<and> (app_state (frame f n inp s) = RUNNING \<or> app_state (frame f n inp s) = FINISHED \<longrightarrow>
        lightness_level (frame f n inp s) =
          Some (lightness_of (total_chars (frame f n inp s))))
   \<and> (TARGET_CHARS_FOR_RELEASE = 500 \<and> lightness_of 250 = 1 / 2)"
proof (intro conjI impI)
  show "total_chars (main_loop f n inps s) \<le> total_chars (main_loop f n (inps @ later) s)"
    by (simp add: main_loop_append main_loop_chars_mono)
  have "chars_inv main_start" by (simp add: chars_inv_def main_start_def)
  then have inv: "chars_inv (main_loop f n inps main_start)" by (rule main_loop_inv)
  then show nonneg: "0 \<le> total_chars (main_loop f n inps main_start)"
    by (simp add: chars_inv_def)
  show "case lightness_level (main_loop f n inps main_start) of
         None \<Rightarrow> total_chars (main_loop f n inps main_start) = 0
       | Some l \<Rightarrow>
           l = clamp (real_of_int (total_chars (main_loop f n inps main_start)) /
                      real_of_int TARGET_CHARS_FOR_RELEASE) 0 1
           \<and> 0 \<le> l \<and> l \<le> 1"
    using inv nonneg
    by (auto simp add: chars_inv_def lightness_of_def clamp_def
        TARGET_CHARS_FOR_RELEASE_def split: option.splits)
  show "TARGET_CHARS_FOR_RELEASE = 500" by (simp add: TARGET_CHARS_FOR_RELEASE_def)
  show "lightness_of 250 = 1 / 2" by (simp add: lightness_of_def TARGET_CHARS_FOR_RELEASE_def)
next
  assume "app_state (frame f n inp s) = RUNNING \<or> app_state (frame f n inp s) = FINISHED"
  then show "lightness_level (frame f n inp s) =
          Some (lightness_of (total_chars (frame f n inp s)))"
    by (auto simp add: frame_def Let_def update_and_draw_lightness split: if_splits)
qed

theorem total_chars_grow_lightness_clamped_witness:
  "app_state
     (frame mono_font no_lexicon (text_input (replicate 150 CHR ''b''))
        (main_loop mono_font no_lexicon [start_input, text_input (replicate 100 CHR ''a'')]
           main_start)) = RUNNING
   \<and> total_chars
     (frame mono_font no_lexicon (text_input (replicate 150 CHR ''b''))
        (main_loop mono_font no_lexicon [start_input, text_input (replicate 100 CHR ''a'')]
           main_start)) = 250
   \<and> lightness_level
     (frame mono_font no_lexicon (text_input (replicate 150 CHR ''b''))
        (main_loop mono_font no_lexicon [start_input, text_input (replicate 100 CHR ''a'')]
           main_start)) = Some (1 / 2)"
proof -
  let ?s = "main_loop mono_font no_lexicon [start_input, text_input (replicate 100 CHR ''a'')]
           main_start"
  let ?inp = "text_input (replicate 150 CHR ''b'')"
  have a: "app_state (frame mono_font no_lexicon ?inp ?s) = RUNNING"
    by code_simp
  have c: "total_chars (frame mono_font no_lexicon ?inp ?s) = 250"
    by code_simp
  show ?thesis
    using a c total_chars_grow_lightness_clamped [of mono_font no_lexicon "[]" ?s "[]" ?inp]
    by simp
qed

section \<open>The main loop: the states\<close>

text \<open>
  Claim C7. In \<open>ONBOARDING\<close> a key press leads to \<open>LOADING\<close>, and no other event leaves
  \<open>ONBOARDING\<close>. A pass that starts in \<open>RUNNING\<close> with no event at all and finds the
  layout full ends in \<open>FINISHED\<close>, with no Resume button drawn. A quit event clears
  \<open>running\<close> in every state; a pass that reads one ends with \<open>running\<close> cleared, and the
  loop ends with that pass.
\<close>

theorem lifecycle_follows_table:
  "(app_state s = ONBOARDING \<longrightarrow>
      app_state (handle_event s KEYDOWN) = LOADING
      \<and> (ev \<noteq> KEYDOWN \<longrightarrow> app_state (handle_event s ev) = ONBOARDING))
   \<and> (app_state s = RUNNING \<and> events inp = [] \<and>
       draw_text_in_columns screen
         (word_color_chunks
            (case get_nowait inp of None \<Rightarrow> s | Some new_text \<Rightarrow> receive_text n new_text s)) f
       \<longrightarrow> app_state (frame f n inp s) = FINISHED \<and> \<not> resume_drawn (frame f n inp s))
   \<and> \<not> running (handle_event s QUIT)
   \<and> (QUIT \<in> set (events inp) \<longrightarrow>
        \<not> running (frame f n inp s)
        \<and> main_loop f n (inp # inps) (s\<lparr>running := True\<rparr>) = frame f n inp (s\<lparr>running := True\<rparr>))"
proof (intro conjI impI)
  assume "app_state s = ONBOARDING"
  then show "app_state (handle_event s KEYDOWN) = LOADING" by simp
next
  assume "app_state s = ONBOARDING" "ev \<noteq> KEYDOWN"
  then show "app_state (handle_event s ev) = ONBOARDING" by (cases ev) simp_all
next
  assume a: "app_state s = RUNNING \<and> events inp = [] \<and>
       draw_text_in_columns screen
         (word_color_chunks
            (case get_nowait inp of None \<Rightarrow> s | Some new_text \<Rightarrow> receive_text n new_text s)) f"
  then show "app_state (frame f n inp s) = FINISHED"
    by (simp add: frame_def update_and_draw_def Let_def receive_text_def split: option.splits)
  from a show "\<not> resume_drawn (frame f n inp s)"
    by (simp add: frame_def update_and_draw_def Let_def receive_text_def split: option.splits)
next
  show "\<not> running (handle_event s QUIT)" by simp
next
  assume q: "QUIT \<in> set (events inp)"
  then show "\<not> running (frame f n inp s)"
    by (simp add: frame_keeps_stopped quit_stops)
  from q have "\<not> running (frame f n inp (s\<lparr>running := True\<rparr>))"
    by (simp add: frame_keeps_stopped quit_stops)
  then show "main_loop f n (inp # inps) (s\<lparr>running := True\<rparr>) = frame f n inp (s\<lparr>running := True\<rparr>)"
    by (simp add: main_loop_stopped)
qed

theorem lifecycle_follows_table_witness:
  "app_state (handle_event main_start KEYDOWN) = LOADING
   \<and> app_state (handle_event main_start (MOUSEBUTTONDOWN (800, 760))) = ONBOARDING
   \<and> app_state (frame mono_font no_lexicon (text_input ''a'') crowded) = FINISHED
   \<and> \<not> running (frame mono_font no_lexicon quit_input main_start)
   \<and> main_loop mono_font no_lexicon [quit_input, start_input] main_start =
       frame mono_font no_lexicon quit_input main_start"
proof -
  have 1: "app_state crowded = RUNNING \<and> events (text_input ''a'') = [] \<and>
       draw_text_in_columns screen
           (word_color_chunks
              (case get_nowait (text_input ''a'') of None \<Rightarrow> crowded
               | Some t \<Rightarrow> receive_text no_lexicon t crowded)) mono_font"
    by code_simp
  have 2: "QUIT \<in> set (events quit_input)" by (simp add: quit_input_def)
  have 3: "app_state main_start = ONBOARDING" "main_start\<lparr>running := True\<rparr> = main_start"
    by (simp_all add: main_start_def)
  show ?thesis
    using 1 2 3
      lifecycle_follows_table [of main_start "MOUSEBUTTONDOWN (800, 760)" quit_input no_lexicon
        mono_font "[start_input]"]
      lifecycle_follows_table [of crowded OTHER "text_input ''a''" no_lexicon mono_font "[]"]
    by simp
qed

section \<open>The layout depends on its inputs only\<close>

lemma place_word_same:
  assumes "surface_width s1 = surface_width s2" "surface_height s1 = surface_height s2"
    and "render_size f1 (fst tok) (snd tok) = render_size f2 (fst tok) (snd tok)"
    and "font_size f1 '' '' = font_size f2 '' ''"
  shows "place_word s1 f1 tok st = place_word s2 f2 tok st"
  using assms
  by (simp add: place_word_def blit_word_def col_width_def right_col_x_def word_width_def
      word_height_def space_width_def Let_def)

lemma draw_words_same:
  assumes "surface_width s1 = surface_width s2" "surface_height s1 = surface_height s2"
    and "\<forall>tok\<in>set chunk. render_size f1 (fst tok) (snd tok) = render_size f2 (fst tok) (snd tok)"
    and "font_size f1 '' '' = font_size f2 '' ''"
  shows "draw_words s1 f1 chunk st = draw_words s2 f2 chunk st"
  using assms
proof (induction chunk arbitrary: st)
  case Nil
  then show ?case by simp
next
  case (Cons tok chunk)
  have "place_word s1 f1 tok st = place_word s2 f2 tok st"
    using Cons.prems by (intro place_word_same) simp_all
  moreover have "draw_words s1 f1 chunk st' = draw_words s2 f2 chunk st'" for st'
    using Cons.prems by (intro Cons.IH) simp_all
  ultimately show ?case by (simp add: Let_def)
qed

lemma end_chunk_same:
  assumes "surface_width s1 = surface_width s2" "surface_height s1 = surface_height s2"
    and "font_height f1 = font_height f2"
  shows "end_chunk s1 f1 st = end_chunk s2 f2 st"
  using assms by (simp add: end_chunk_def right_col_x_def col_width_def Let_def)

lemma draw_chunks_same:
  assumes "surface_width s1 = surface_width s2" "surface_height s1 = surface_height s2"
    and "\<forall>tok\<in>set (concat chunks).
           render_size f1 (fst tok) (snd tok) = render_size f2 (fst tok) (snd tok)"
    and "font_size f1 '' '' = font_size f2 '' ''" and "font_height f1 = font_height f2"
  shows "draw_chunks s1 f1 chunks st = draw_chunks s2 f2 chunks st"
  using assms
proof (induction chunks arbitrary: st)
  case Nil
  then show ?case by simp
next
  case (Cons chunk chunks)
  have w: "draw_words s1 f1 chunk st = draw_words s2 f2 chunk st"
    using Cons.prems by (intro draw_words_same) simp_all
  have e: "end_chunk s1 f1 st' = end_chunk s2 f2 st'" for st'
    using Cons.prems by (intro end_chunk_same) simp_all
  have r: "draw_chunks s1 f1 chunks st' = draw_chunks s2 f2 chunks st'" for st'
    using Cons.prems by (intro Cons.IH) simp_all
  show ?case by (simp add: Let_def w e r)
qed

text \<open>
  Claim C9. Two runs of the layout on the same chunks, on surfaces of the same width and
  height and with fonts that agree on the width of a blank, on the line height and on the
  size of every word of the chunks, draw the same words in the same colours at the same
  positions and return the same flag. Every run starts from the same cursor, so nothing is
  carried over from one call to the next.
\<close>

theorem layout_is_a_function_of_its_inputs:
  assumes "surface_width s1 = surface_width s2" "surface_height s1 = surface_height s2"
    and "\<forall>tok\<in>set (concat chunks).
           render_size f1 (fst tok) (snd tok) = render_size f2 (fst tok) (snd tok)"
    and "font_size f1 '' '' = font_size f2 '' ''" and "font_height f1 = font_height f2"
  shows "drawn s1 chunks f1 = drawn s2 chunks f2
       \<and> draw_text_in_columns s1 chunks f1 = draw_text_in_columns s2 chunks f2"
  using draw_chunks_same [OF assms, of layout_start]
  by (simp add: drawn_def draw_text_in_columns_def layout_of_def)

theorem layout_is_a_function_of_its_inputs_witness:
  "drawn screen [[plain ''morning'', plain ''evening'']] mono_font =
     drawn screen [[plain ''morning'', plain ''evening'']] other_font
   \<and> draw_text_in_columns screen [[plain ''morning'', plain ''evening'']] mono_font =
     draw_text_in_columns screen [[plain ''morning'', plain ''evening'']] other_font"
proof -
  have "\<forall>tok\<in>set (concat [[plain ''morning'', plain ''evening'']]).
      render_size mono_font (fst tok) (snd tok) = render_size other_font (fst tok) (snd tok)"
    by (simp add: plain_def mono_font_def other_font_def)
  then show ?thesis
    by (intro layout_is_a_function_of_its_inputs) (simp_all add: mono_font_def other_font_def)
qed

section \<open>The layout: what is drawn\<close>

lemma place_word_blits:
  "\<not> screen_full st \<Longrightarrow>
   map token_of (blits (place_word surface f tok st)) =
     (if screen_full (place_word surface f tok st)
      then map token_of (blits st) else map token_of (blits st) @ [tok])"
  by (simp add: place_word_def blit_word_def Let_def token_of_def)

lemma draw_words_blits:
  "\<not> screen_full st \<Longrightarrow> \<not> screen_full (draw_words surface f chunk st) \<Longrightarrow>
   map token_of (blits (draw_words surface f chunk st)) = map token_of (blits st) @ chunk"
proof (induction chunk arbitrary: st)
  case Nil
  then show ?case by simp
next
  case (Cons tok chunk)
  let ?st1 = "place_word surface f tok st"
  have nf: "\<not> screen_full ?st1" using Cons.prems(2) by (auto simp add: Let_def split: if_splits)
  then have "map token_of (blits (draw_words surface f chunk ?st1)) =
      map token_of (blits ?st1) @ chunk"
    using Cons.prems(2) by (intro Cons.IH) (simp_all add: Let_def)
  then show ?case using nf Cons.prems(1) by (simp add: Let_def place_word_blits)
qed

lemma end_chunk_blits [simp]: "blits (end_chunk surface f st) = blits st"
  by (simp add: end_chunk_def Let_def)

lemma draw_chunks_blits:
  "\<not> screen_full st \<Longrightarrow> \<not> screen_full (draw_chunks surface f chunks st) \<Longrightarrow>
   map token_of (blits (draw_chunks surface f chunks st)) = map token_of (blits st) @ concat chunks"
proof (induction chunks arbitrary: st)
  case Nil
  then show ?case by simp
next
  case (Cons chunk chunks)
  let ?st1 = "draw_words surface f chunk st"
  let ?st2 = "end_chunk surface f ?st1"
  have n1: "\<not> screen_full ?st1" using Cons.prems(2) by (auto simp add: Let_def split: if_splits)
  have n2: "\<not> screen_full ?st2" using Cons.prems(2) n1 by (auto simp add: Let_def split: if_splits)
  have "map token_of (blits (draw_chunks surface f chunks ?st2)) =
      map token_of (blits ?st2) @ concat chunks"
    using n2 Cons.prems(2) n1 by (intro Cons.IH) (simp_all add: Let_def)
  then show ?case
    using n1 n2 draw_words_blits [OF Cons.prems(1) n1] by (simp add: Let_def)
qed

lemma draw_chunks_full_append:
  "screen_full (draw_chunks surface f chunks st) \<Longrightarrow> \<not> screen_full st \<Longrightarrow>
   draw_chunks surface f (chunks @ later) st = draw_chunks surface f chunks st"
  by (induction chunks arbitrary: st) (auto simp add: Let_def)

lemma overflow_stays:
  "draw_text_in_columns surface chunks f \<Longrightarrow> draw_text_in_columns surface (chunks @ later) f"
  using draw_chunks_full_append [of surface f chunks layout_start later]
  by (simp add: draw_text_in_columns_def layout_of_def layout_start_def)

text \<open>
  The scenario of the specification on the window of the program: three words of seven
  letters fill a line, the fourth starts the next line.
\<close>

lemma fourth_word_on_next_line:
  "drawn screen [[plain ''morning'', plain ''evening'', plain ''weather'', plain ''nothing'']] mono_font =
     [(''morning'', DEFAULT_TEXT_COLOR, 40, 40), (''evening'', DEFAULT_TEXT_COLOR, 184, 40),
      (''weather'', DEFAULT_TEXT_COLOR, 328, 40), (''nothing'', DEFAULT_TEXT_COLOR, 40, 70)]"
  by code_simp

text \<open>
  Claim C10, as amended. Take a word wider than a column that is reached with the cursor not
  left of the current column. The layout always leaves the current line first. When the
  next line fits under the current column the word is drawn once at the start of that line;
  when it does not fit and the current column is the left one, the word is drawn once at
  the top of the right column; in both cases it is drawn whole and reaches past the right
  edge of its column. When the next line does not fit and the current column is the right
  one, the word is not drawn at all and the screen is reported full. Whenever a layout does
  not report a full screen, every word of every chunk has been drawn exactly once, in
  order.
\<close>

theorem overwide_word_takes_a_new_line:
  assumes "col_width surface < word_width f tok"
    and "current_col_x st \<le> current_line_x st" and "\<not> screen_full st"
  shows "(screen_full (place_word surface f tok st) \<longleftrightarrow>
            surface_height surface - margin < col_y st + 2 * word_height f tok
            \<and> current_col_x st \<noteq> left_col_x)
       \<and> (screen_full (place_word surface f tok st) \<longrightarrow>
            blits (place_word surface f tok st) = blits st)
       \<and> (\<not> screen_full (place_word surface f tok st) \<longrightarrow>
            blits (place_word surface f tok st) =
              blits st @ [(fst tok, snd tok, current_col_x (place_word surface f tok st),
                           col_y (place_word surface f tok st))]
            \<and> (if col_y st + 2 * word_height f tok \<le> surface_height surface - margin
                then col_y (place_word surface f tok st) = col_y st + word_height f tok
                  \<and> current_col_x (place_word surface f tok st) = current_col_x st
                else col_y (place_word surface f tok st) = margin
                  \<and> current_col_x (place_word surface f tok st) = right_col_x surface
                  \<and> current_col_x st = left_col_x)
            \<and> current_col_x (place_word surface f tok st) + col_width surface
                < current_col_x (place_word surface f tok st) + word_width f tok)
       \<and> (\<not> draw_text_in_columns surface chunks f \<longrightarrow>
            map token_of (drawn surface chunks f) = concat chunks)"
proof -
  have br: "current_line_x st + word_width f tok > current_col_x st + col_width surface"
    using assms(1,2) by linarith
  have "\<not> draw_text_in_columns surface chunks f \<Longrightarrow>
      map token_of (drawn surface chunks f) = concat chunks"
    using draw_chunks_blits [of layout_start surface f chunks]
    by (simp add: draw_text_in_columns_def drawn_def layout_of_def layout_start_def)
  then show ?thesis
    using br assms(1,3) by (auto simp add: place_word_def blit_word_def Let_def)
qed

theorem overwide_word_takes_a_new_line_witness:
  "\<not> screen_full (place_word screen mono_font (plain long_word) layout_start)
   \<and> blits (place_word screen mono_font (plain long_word) layout_start) =
       [(long_word, DEFAULT_TEXT_COLOR, 40, 70)]
   \<and> map token_of (drawn screen [[plain long_word]] mono_font) = [plain long_word]"
proof -
  have 1: "col_width screen < word_width mono_font (plain long_word)" by code_simp
  have 2: "current_col_x layout_start \<le> current_line_x layout_start"
    by (simp add: layout_start_def)
  have 3: "\<not> screen_full layout_start" by (simp add: layout_start_def)
  have 4: "\<not> (surface_height screen - margin
             < col_y layout_start + 2 * word_height mono_font (plain long_word)
           \<and> current_col_x layout_start \<noteq> left_col_x)"
    by (simp add: layout_start_def)
  have 5: "\<not> draw_text_in_columns screen [[plain long_word]] mono_font" by code_simp
  have 6: "col_y layout_start + 2 * word_height mono_font (plain long_word)
      \<le> surface_height screen - margin"
    by code_simp
  have 7: "col_y layout_start + word_height mono_font (plain long_word) = 70"
    "current_col_x layout_start = 40" "blits layout_start = []"
    by code_simp+
  note inst = overwide_word_takes_a_new_line [OF 1 2 3, of "[[plain long_word]]"]
  have a: "\<not> screen_full (place_word screen mono_font (plain long_word) layout_start)"
    using inst 4 by blast
  have b: "blits (place_word screen mono_font (plain long_word) layout_start) =
       [(long_word, DEFAULT_TEXT_COLOR, 40, 70)]"
    using inst a 6 7 by (simp add: plain_def)
  have c: "map token_of (drawn screen [[plain long_word]] mono_font) = [plain long_word]"
    using inst 5 by simp
  show ?thesis
    by (intro conjI) (rule a, rule b, rule c)
qed

text \<open>
  Claim C10 as stated has every such word drawn. Take a chunk of 46 words of 25 letters:
  each is drawn on a line of its own, the last of them on the last line but one of the
  right column, and after the chunk the cursor stands at the start of the last line,
  (725, 730), with the screen not full. A short word that comes next is drawn there. A
  word of 26 letters that comes next is not drawn anywhere, and the screen is reported
  full.
\<close>

theorem overwide_word_dropped_counterexample:
  "col_width screen < word_width mono_font (plain longer_word)
   \<and> \<not> draw_text_in_columns screen [replicate 46 (plain long_word)] mono_font
   \<and> current_col_x (layout_of screen [replicate 46 (plain long_word)] mono_font) = 725
   \<and> current_line_x (layout_of screen [replicate 46 (plain long_word)] mono_font) = 725
   \<and> col_y (layout_of screen [replicate 46 (plain long_word)] mono_font) = 730
   \<and> filter (\<lambda>b. fst b = longer_word)
        (drawn screen [replicate 46 (plain long_word), [plain longer_word]] mono_font) = []
   \<and> draw_text_in_columns screen [replicate 46 (plain long_word), [plain longer_word]] mono_font
   \<and> last (drawn screen [replicate 46 (plain long_word), [plain ''b'']] mono_font) =
        (''b'', DEFAULT_TEXT_COLOR, 725, 730)"
proof (intro conjI)
  show "col_width screen < word_width mono_font (plain longer_word)" by code_simp
  show "\<not> draw_text_in_columns screen [replicate 46 (plain long_word)] mono_font"
    by code_simp
  show "current_col_x (layout_of screen [replicate 46 (plain long_word)] mono_font) = 725"
    by code_simp
  show "current_line_x (layout_of screen [replicate 46 (plain long_word)] mono_font) = 725"
    by code_simp
  show "col_y (layout_of screen [replicate 46 (plain long_word)] mono_font) = 730"
    by code_simp
  show "filter (\<lambda>b. fst b = longer_word)
        (drawn screen [replicate 46 (plain long_word), [plain longer_word]] mono_font) = []"
    by code_simp
  show "draw_text_in_columns screen [replicate 46 (plain long_word), [plain longer_word]]
      mono_font"
    by code_simp
  show "last (drawn screen [replicate 46 (plain long_word), [plain ''b'']] mono_font) =
        (''b'', DEFAULT_TEXT_COLOR, 725, 730)"
    by code_simp
qed

text \<open>
  Claim C5 at the input where the code departs from it. The 24th chunk ends on the last
  line of the left column. The code after a chunk moves the cursor to the start of the
  next line and only then changes to the right column, without moving the cursor there
  (the change of column inside a chunk does move it). The word of the 25th chunk is
  therefore not drawn at the start of a new line but at (40, 40), where the word of the
  first chunk already is.
\<close>

theorem next_chunk_drawn_over_first_line:
  "drawn screen (replicate 24 [plain ''a''] @ [[plain ''b'']]) mono_font ! 0 =
     (''a'', DEFAULT_TEXT_COLOR, 40, 40)
   \<and> drawn screen (replicate 24 [plain ''a''] @ [[plain ''b'']]) mono_font ! 24 =
     (''b'', DEFAULT_TEXT_COLOR, 40, 40)
   \<and> current_col_x (layout_of screen (replicate 24 [plain ''a'']) mono_font) = right_col_x screen
   \<and> current_line_x (layout_of screen (replicate 24 [plain ''a'']) mono_font) = left_col_x
   \<and> col_y (layout_of screen (replicate 24 [plain ''a'']) mono_font) = margin
   \<and> left_col_x = 40 \<and> right_col_x screen = 725"
proof (intro conjI)
  show "drawn screen (replicate 24 [plain ''a''] @ [[plain ''b'']]) mono_font ! 0 =
     (''a'', DEFAULT_TEXT_COLOR, 40, 40)" by code_simp
  show "drawn screen (replicate 24 [plain ''a''] @ [[plain ''b'']]) mono_font ! 24 =
     (''b'', DEFAULT_TEXT_COLOR, 40, 40)" by code_simp
  show "current_col_x (layout_of screen (replicate 24 [plain ''a'']) mono_font) = right_col_x screen"
    by code_simp
  show "current_line_x (layout_of screen (replicate 24 [plain ''a'']) mono_font) = left_col_x"
    by code_simp
  show "col_y (layout_of screen (replicate 24 [plain ''a'']) mono_font) = margin"
    by code_simp
  show "left_col_x = 40" by code_simp
  show "right_col_x screen = 725" by code_simp
qed

section \<open>The main loop: the Resume button\<close>

lemma frame_overflow_finishes:
  assumes "app_state s = RUNNING" and "events inp = []"
    and "draw_text_in_columns screen
           (word_color_chunks
              (case get_nowait inp of None \<Rightarrow> s | Some t \<Rightarrow> receive_text n t s)) f"
  shows "app_state (frame f n inp s) = FINISHED" and "\<not> resume_drawn (frame f n inp s)"
    and "draw_text_in_columns screen (word_color_chunks (frame f n inp s)) f"
  using assms
  by (simp_all add: frame_def update_and_draw_def Let_def receive_text_def split: option.splits)

lemma frame_after_click:
  "app_state (handle_event s (MOUSEBUTTONDOWN pos)) = RUNNING \<Longrightarrow>
   frame f n (click_input pos polled) s =
     update_and_draw f n (click_input pos polled) (handle_event s (MOUSEBUTTONDOWN pos))"
  by (simp add: frame_def click_input_def Let_def del: handle_event.simps)

text \<open>
  Claim C1 on the code. A pass in \<open>RUNNING\<close> that finds the layout full ends in
  \<open>FINISHED\<close> and draws no Resume button. A click at the place of that button all the
  same sets the state to \<open>RUNNING\<close>: the handler of the click does not look at the
  layout. The pass that handles the click then polls the text queue as a running pass
  does, so that a waiting fragment is counted, before the full layout sets the state to
  \<open>FINISHED\<close> again.
\<close>

theorem resume_click_is_not_guarded:
  assumes "app_state s = RUNNING" and "events inp = []"
    and "draw_text_in_columns screen
           (word_color_chunks
              (case get_nowait inp of None \<Rightarrow> s | Some t \<Rightarrow> receive_text n t s)) f"
    and "collidepoint resume_button_rect pos" and "\<not> collidepoint save_button_rect pos"
  shows "app_state (frame f n inp s) = FINISHED \<and> \<not> resume_drawn (frame f n inp s)
       \<and> app_state (handle_event (frame f n inp s) (MOUSEBUTTONDOWN pos)) = RUNNING
       \<and> total_chars (frame f n (click_input pos (Some new_text)) (frame f n inp s)) =
           total_chars (frame f n inp s) + int (length new_text)
       \<and> app_state (frame f n (click_input pos (Some new_text)) (frame f n inp s)) = FINISHED"
proof -
  let ?s1 = "frame f n inp s"
  note fin = frame_overflow_finishes [OF assms(1,2,3)]
  have click: "app_state (handle_event ?s1 (MOUSEBUTTONDOWN pos)) = RUNNING"
    using fin(1) assms(4,5) by simp
  have full: "draw_text_in_columns screen (word_color_chunks ?s1 @ later) f" for later
    using fin(3) by (rule overflow_stays)
  let ?s2 = "handle_event ?s1 (MOUSEBUTTONDOWN pos)"
  have fr: "frame f n (click_input pos (Some new_text)) ?s1 =
      update_and_draw f n (click_input pos (Some new_text)) ?s2"
    using click by (rule frame_after_click)
  have chars: "total_chars (frame f n (click_input pos (Some new_text)) ?s1) =
      total_chars ?s1 + int (length new_text)"
    unfolding fr using click
    by (simp add: update_and_draw_chars click_input_def del: handle_event.simps)
  have again: "app_state (frame f n (click_input pos (Some new_text)) ?s1) = FINISHED"
    unfolding fr using click full [of "[new_chunk (n new_text) new_text]"] fin(3)
    by (simp add: update_and_draw_def receive_text_def click_input_def Let_def
        del: handle_event.simps)
  show ?thesis using fin(1,2) click chars again by simp
qed

theorem resume_click_is_not_guarded_witness:
  "app_state (frame mono_font no_lexicon (text_input ''a'') crowded) = FINISHED
   \<and> \<not> resume_drawn (frame mono_font no_lexicon (text_input ''a'') crowded)
   \<and> app_state (handle_event (frame mono_font no_lexicon (text_input ''a'') crowded)
        (MOUSEBUTTONDOWN (800, 760))) = RUNNING
   \<and> total_chars (frame mono_font no_lexicon (click_input (800, 760) (Some ''more words''))
        (frame mono_font no_lexicon (text_input ''a'') crowded)) =
       total_chars (frame mono_font no_lexicon (text_input ''a'') crowded) + 10
   \<and> app_state (frame mono_font no_lexicon (click_input (800, 760) (Some ''more words''))
        (frame mono_font no_lexicon (text_input ''a'') crowded)) = FINISHED"
proof -
  have 1: "app_state crowded = RUNNING" by (simp add: crowded_def)
  have 2: "events (text_input ''a'') = []" by (simp add: text_input_def)
  have 3: "draw_text_in_columns screen
           (word_color_chunks
              (case get_nowait (text_input ''a'') of None \<Rightarrow> crowded
               | Some t \<Rightarrow> receive_text no_lexicon t crowded)) mono_font"
    by code_simp
  have 4: "collidepoint resume_button_rect (800, 760)" by code_simp
  have 5: "\<not> collidepoint save_button_rect (800, 760)" by code_simp
  show ?thesis
    using resume_click_is_not_guarded [OF 1 2 3 4 5, of "''more words''"]
    by (simp del: handle_event.simps)
qed

end
